theory Spec2Isabelle
  imports Main
begin

section \<open>The application factory of \<^verbatim>\<open>backend/app/__init__.py\<close>\<close>

text \<open>
  The module defines one function:
  \<^verbatim>\<open>
  def create_app(test_config=None):
      app = Flask(__name__)
      app.user_graphs = {}
      app.config.from_mapping(SECRET_KEY='dev')
      if test_config:
          app.config.from_mapping(test_config)
      CORS(app)
      app.register_blueprint(api_bp)
      return app
  \<close>
  It is embedded as a function from the argument and the interpreter state to a result
  (an exception or the application object) and the new interpreter state. The framework
  calls it makes are embedded beside it, each as far as \<open>create_app\<close> exercises it.
\<close>

subsection \<open>Python values\<close>

text \<open>
  The values an argument, a configuration entry or a dictionary key can be here: \<open>None\<close>,
  booleans, integers, strings and dictionaries. A string is the list of its code points,
  a \<open>char\<close> being a code point below 256. A dictionary is the list of its items in
  insertion order; a Python dictionary has no two items with one key.
\<close>

datatype pyval =
    PNone
  | PBool bool
  | PInt int
  | PStr string
  | PDict "(pyval \<times> pyval) list"

type_synonym pydict = "(pyval \<times> pyval) list"

text \<open>Truth value testing, as \<^verbatim>\<open>if test_config:\<close> performs it.\<close>

definition truthy :: "pyval \<Rightarrow> bool" where
  "truthy v =
     (case v of
        PNone \<Rightarrow> False
      | PBool b \<Rightarrow> b
      | PInt n \<Rightarrow> n \<noteq> 0
      | PStr s \<Rightarrow> s \<noteq> []
      | PDict kvs \<Rightarrow> kvs \<noteq> [])"

text \<open>The exceptions that can leave \<open>create_app\<close>; the function catches none.\<close>

datatype error = TypeError | ValueError | AttributeError | AssertionError

text \<open>
  \<^verbatim>\<open>str.isupper()\<close>: no character of the string is lower case (or title case) and at
  least one is upper case. The case of the code points below 256, from the Unicode
  database: upper case are \<open>A\<close>-\<open>Z\<close> (65-90) and 192-214, 216-222; lower case are \<open>a\<close>-\<open>z\<close>
  (97-122) and 170, 181, 186, 223-246, 248-255; none is title case.
\<close>

definition is_upper_char :: "char \<Rightarrow> bool" where
  "is_upper_char c =
     (let n = (of_char c :: nat)
      in (65 \<le> n \<and> n \<le> 90) \<or> (192 \<le> n \<and> n \<le> 214) \<or> (216 \<le> n \<and> n \<le> 222))"

definition is_lower_char :: "char \<Rightarrow> bool" where
  "is_lower_char c =
     (let n = (of_char c :: nat)
      in (97 \<le> n \<and> n \<le> 122) \<or> n = 170 \<or> n = 181 \<or> n = 186 \<or>
         (223 \<le> n \<and> n \<le> 246) \<or> (248 \<le> n \<and> n \<le> 255))"

definition str_isupper :: "string \<Rightarrow> bool" where
  "str_isupper s = (filter is_lower_char s = [] \<and> filter is_upper_char s \<noteq> [])"

subsection \<open>The interpreter state\<close>

text \<open>
  Dictionaries created at run time are objects: the heap maps an address to the items of
  the dictionary that lives there, and \<open>next_addr\<close> is the next unused address. \<open>calls\<close>
  is the log of the calls made so far, in order; a call of \<open>from_mapping\<close> is logged with
  the arguments it was given.
\<close>

type_synonym addr = nat

datatype step =
    Instantiate
  | AttachStore
  | FromMapping pyval "(string \<times> pyval) list"
  | InstallCors
  | RegisterBlueprint

record world =
  heap :: "addr \<rightharpoonup> pydict"
  next_addr :: addr
  calls :: "step list"

definition new_dict :: "world \<Rightarrow> addr \<times> world" where
  "new_dict w =
     (next_addr w,
      w\<lparr>heap := (heap w)(next_addr w \<mapsto> []), next_addr := Suc (next_addr w)\<rparr>)"

text \<open>\<^verbatim>\<open>d[k] = v\<close> on the dictionary at address \<open>a\<close>: the item is replaced or appended.\<close>

fun dict_put :: "pyval \<Rightarrow> pyval \<Rightarrow> pydict \<Rightarrow> pydict" where
  "dict_put k v [] = [(k, v)]"
| "dict_put k v ((k', v') # kvs) =
     (if k' = k then (k, v) # kvs else (k', v') # dict_put k v kvs)"

definition setitem :: "addr \<Rightarrow> pyval \<Rightarrow> pyval \<Rightarrow> world \<Rightarrow> world" where
  "setitem a k v w =
     (case heap w a of
        None \<Rightarrow> w
      | Some kvs \<Rightarrow> w\<lparr>heap := (heap w)(a \<mapsto> dict_put k v kvs)\<rparr>)"

definition logged :: "step \<Rightarrow> world \<Rightarrow> world" where
  "logged s w = w\<lparr>calls := calls w @ [s]\<rparr>"

subsection \<open>The application object\<close>

type_synonym pyconfig = "string \<rightharpoonup> pyval"

datatype view = SendStaticFile | Handler nat

datatype hook = CorsAfterRequest

record route =
  rt_rule :: string
  rt_endpoint :: string
  rt_view :: view

record blueprint =
  bp_name :: string
  bp_routes :: "route list"

text \<open>
  The attributes of a Flask application that \<open>create_app\<close> touches. \<open>user_graphs\<close> is the
  attribute the function attaches: \<open>None\<close> while the attribute is absent, the address of
  the dictionary afterwards.
\<close>

record app =
  user_graphs :: "addr option"
  config :: pyconfig
  after_request_funcs :: "hook list"
  blueprints :: "string \<rightharpoonup> blueprint"
  url_map :: "(string \<times> string) list"
  view_functions :: "string \<rightharpoonup> view"

text \<open>
  What the module imports. \<open>Flask\<close> and \<open>CORS\<close> are third-party and \<open>api_bp\<close> is defined in
  \<^verbatim>\<open>app.routes\<close>, so the framework's built-in configuration defaults, the configurations
  the cross-origin extension accepts (it reads its options from the \<^verbatim>\<open>CORS_*\<close> entries of
  \<open>app.config\<close> and raises \<open>ValueError\<close> on a combination it rejects) and the blueprint are
  parameters.
\<close>

record deps =
  default_config :: pyconfig
  cors_accepts :: "pyconfig \<Rightarrow> bool"
  api_bp :: blueprint

subsection \<open>The framework calls\<close>

text \<open>
  \<^verbatim>\<open>Flask(__name__)\<close>: a new application with the built-in configuration, no hooks, no
  blueprints, and the route of the static folder.
\<close>

definition Flask :: "deps \<Rightarrow> world \<Rightarrow> (error + app) \<times> world" where
  "Flask d w =
     (Inr \<lparr>user_graphs = None,
           config = default_config d,
           after_request_funcs = [],
           blueprints = Map.empty,
           url_map = [(''/static/<path:filename>'', ''static'')],
           view_functions = [''static'' \<mapsto> SendStaticFile]\<rparr>,
      logged Instantiate w)"

text \<open>\<^verbatim>\<open>app.user_graphs = {}\<close>: a new empty dictionary, bound to the attribute.\<close>

definition set_user_graphs :: "app \<Rightarrow> world \<Rightarrow> (error + app) \<times> world" where
  "set_user_graphs a w =
     (let (p, w') = new_dict (logged AttachStore w)
      in (Inr (a\<lparr>user_graphs := Some p\<rparr>), w'))"

text \<open>
  \<^verbatim>\<open>Config.from_mapping(mapping=None, **kwargs)\<close>:
  \<^verbatim>\<open>
      mappings = {}
      if mapping is not None:
          mappings.update(mapping)
      mappings.update(kwargs)
      for key, value in mappings.items():
          if key.isupper():
              self[key] = value
  \<close>
  \<open>dict.update\<close> takes a dictionary, or iterates its argument for key/value pairs: an
  integer or a boolean is not iterable (\<open>TypeError\<close>), a character of a string is not a
  pair (\<open>ValueError\<close>). A key that is not a string has no \<open>isupper\<close> (\<open>AttributeError\<close>).
\<close>

definition mapping_items :: "pyval \<Rightarrow> error + pydict" where
  "mapping_items m =
     (case m of
        PNone \<Rightarrow> Inr []
      | PBool b \<Rightarrow> Inl TypeError
      | PInt n \<Rightarrow> Inl TypeError
      | PStr s \<Rightarrow> (if s = [] then Inr [] else Inl ValueError)
      | PDict kvs \<Rightarrow> Inr kvs)"

fun set_upper_items :: "pydict \<Rightarrow> pyconfig \<Rightarrow> error + pyconfig" where
  "set_upper_items [] c = Inr c"
| "set_upper_items ((k, v) # kvs) c =
     (case k of
        PStr s \<Rightarrow> set_upper_items kvs (if str_isupper s then c(s \<mapsto> v) else c)
      | _ \<Rightarrow> Inl AttributeError)"

definition from_mapping :: "pyval \<Rightarrow> (string \<times> pyval) list \<Rightarrow> pyconfig \<Rightarrow> error + pyconfig" where
  "from_mapping m kwargs c =
     (case mapping_items m of
        Inl e \<Rightarrow> Inl e
      | Inr kvs \<Rightarrow> set_upper_items (kvs @ map (\<lambda>(k, v). (PStr k, v)) kwargs) c)"

definition config_from_mapping ::
  "pyval \<Rightarrow> (string \<times> pyval) list \<Rightarrow> app \<Rightarrow> world \<Rightarrow> (error + app) \<times> world" where
  "config_from_mapping m kwargs a w =
     (case from_mapping m kwargs (config a) of
        Inl e \<Rightarrow> (Inl e, logged (FromMapping m kwargs) w)
      | Inr c \<Rightarrow> (Inr (a\<lparr>config := c\<rparr>), logged (FromMapping m kwargs) w))"

text \<open>
  \<^verbatim>\<open>CORS(app)\<close>: the extension computes its options from the application's configuration
  and installs its after-request hook.
\<close>

definition CORS :: "deps \<Rightarrow> app \<Rightarrow> world \<Rightarrow> (error + app) \<times> world" where
  "CORS d a w =
     (if cors_accepts d (config a)
      then (Inr (a\<lparr>after_request_funcs := after_request_funcs a @ [CorsAfterRequest]\<rparr>),
            logged InstallCors w)
      else (Inl ValueError, logged InstallCors w))"

text \<open>
  \<^verbatim>\<open>app.register_blueprint(bp)\<close>: a name registered before is refused; then every route of
  the blueprint is added under the endpoint \<^verbatim>\<open>name.endpoint\<close>. \<open>add_url_rule\<close> refuses an
  endpoint that is bound to another view function already.
\<close>

definition add_url_rule :: "string \<Rightarrow> string \<Rightarrow> view \<Rightarrow> app \<Rightarrow> error + app" where
  "add_url_rule r e f a =
     (case view_functions a e of
        None \<Rightarrow> Inr (a\<lparr>url_map := url_map a @ [(r, e)],
                       view_functions := (view_functions a)(e \<mapsto> f)\<rparr>)
      | Some g \<Rightarrow>
          (if g = f then Inr (a\<lparr>url_map := url_map a @ [(r, e)]\<rparr>)
           else Inl AssertionError))"

definition bp_endpoint :: "string \<Rightarrow> string \<Rightarrow> string" where
  "bp_endpoint n e = n @ ''.'' @ e"

fun add_routes :: "string \<Rightarrow> route list \<Rightarrow> app \<Rightarrow> error + app" where
  "add_routes n [] a = Inr a"
| "add_routes n (r # rs) a =
     (case add_url_rule (rt_rule r) (bp_endpoint n (rt_endpoint r)) (rt_view r) a of
        Inl e \<Rightarrow> Inl e
      | Inr a' \<Rightarrow> add_routes n rs a')"

definition register_blueprint :: "blueprint \<Rightarrow> app \<Rightarrow> world \<Rightarrow> (error + app) \<times> world" where
  "register_blueprint bp a w =
     (case blueprints a (bp_name bp) of
        Some b \<Rightarrow> (Inl ValueError, logged RegisterBlueprint w)
      | None \<Rightarrow>
          (add_routes (bp_name bp) (bp_routes bp)
             (a\<lparr>blueprints := (blueprints a)(bp_name bp \<mapsto> bp)\<rparr>),
           logged RegisterBlueprint w))"

subsection \<open>\<open>create_app\<close>\<close>

text \<open>Statements run in sequence; an exception ends the run.\<close>

definition and_then ::
  "(world \<Rightarrow> (error + 'a) \<times> world) \<Rightarrow> ('a \<Rightarrow> world \<Rightarrow> (error + 'b) \<times> world) \<Rightarrow>
   world \<Rightarrow> (error + 'b) \<times> world" where
  "and_then m f w = (case m w of (Inl e, w') \<Rightarrow> (Inl e, w') | (Inr x, w') \<Rightarrow> f x w')"

definition create_app :: "deps \<Rightarrow> pyval \<Rightarrow> world \<Rightarrow> (error + app) \<times> world" where
  "create_app d test_config =
     and_then (Flask d) (\<lambda>app.
     and_then (set_user_graphs app) (\<lambda>app.
     and_then (config_from_mapping PNone [(''SECRET_KEY'', PStr ''dev'')] app) (\<lambda>app.
     and_then (if truthy test_config
               then config_from_mapping test_config [] app
               else Pair (Inr app)) (\<lambda>app.
     and_then (CORS d app) (\<lambda>app.
     register_blueprint (api_bp d) app)))))"

subsection \<open>Notions for stating the properties\<close>

text \<open>The configuration after the defaults are loaded.\<close>

definition configured :: "deps \<Rightarrow> pyconfig" where
  "configured d = (default_config d)(''SECRET_KEY'' \<mapsto> PStr ''dev'')"

text \<open>
  An overlay the merge step accepts: a dictionary whose keys are all strings, or a value
  that is falsy (for which the step is skipped).
\<close>

definition str_keys :: "pydict \<Rightarrow> bool" where
  "str_keys kvs = list_all (\<lambda>kv. case fst kv of PStr s \<Rightarrow> True | _ \<Rightarrow> False) kvs"

definition mergeable :: "pyval \<Rightarrow> bool" where
  "mergeable tc = (case tc of PDict kvs \<Rightarrow> str_keys kvs | _ \<Rightarrow> \<not> truthy tc)"

text \<open>
  The configuration that results when the merge raises nothing: the upper-case entries of
  the overlay, written over the loaded defaults in order.
\<close>

definition put_upper :: "pyval \<times> pyval \<Rightarrow> pyconfig \<Rightarrow> pyconfig" where
  "put_upper kv c =
     (case fst kv of PStr s \<Rightarrow> if str_isupper s then c(s \<mapsto> snd kv) else c | _ \<Rightarrow> c)"

definition overlay_items :: "pyval \<Rightarrow> pydict" where
  "overlay_items tc = (case tc of PDict kvs \<Rightarrow> kvs | _ \<Rightarrow> [])"

definition merged_config :: "deps \<Rightarrow> pyval \<Rightarrow> pyconfig" where
  "merged_config d tc = fold put_upper (overlay_items tc) (configured d)"

text \<open>The exception of the merge step for an overlay it does not accept.\<close>

definition merge_error :: "pyval \<Rightarrow> error" where
  "merge_error tc =
     (case tc of PDict kvs \<Rightarrow> AttributeError | PStr s \<Rightarrow> ValueError | _ \<Rightarrow> TypeError)"

text \<open>No two routes of a blueprint bind one endpoint to different view functions.\<close>

fun consistent_routes :: "route list \<Rightarrow> bool" where
  "consistent_routes [] = True"
| "consistent_routes (r # rs) =
     (list_all (\<lambda>r'. rt_endpoint r' \<noteq> rt_endpoint r \<or> rt_view r' = rt_view r) rs \<and>
      consistent_routes rs)"

subsection \<open>A concrete setting\<close>

text \<open>
  A blueprint with two routes, a framework whose cross-origin extension refuses credentials
  together with a wildcard origin, the state of a fresh interpreter, and three overlays.
\<close>

definition example_bp :: blueprint where
  "example_bp =
     \<lparr>bp_name = ''api'',
      bp_routes =
        [\<lparr>rt_rule = ''/graph'', rt_endpoint = ''get_graph'', rt_view = Handler 0\<rparr>,
         \<lparr>rt_rule = ''/graph/upload'', rt_endpoint = ''upload_graph'', rt_view = Handler 1\<rparr>]\<rparr>"

definition example_deps :: deps where
  "example_deps =
     \<lparr>default_config = [''SECRET_KEY'' \<mapsto> PNone, ''TESTING'' \<mapsto> PBool False],
      cors_accepts = (\<lambda>c. c ''CORS_SUPPORTS_CREDENTIALS'' \<noteq> Some (PBool True) \<or>
                          c ''CORS_SEND_WILDCARD'' \<noteq> Some (PBool True)),
      api_bp = example_bp\<rparr>"

definition fresh_world :: world where
  "fresh_world = \<lparr>heap = Map.empty, next_addr = 0, calls = []\<rparr>"

definition prod_overlay :: pyval where
  "prod_overlay = PDict [(PStr ''SECRET_KEY'', PStr ''prod-secret'')]"


definition debug_overlay :: pyval where
  "debug_overlay = PDict [(PStr ''DEBUG'', PBool True)]"

section \<open>Properties\<close>

subsection \<open>The framework calls\<close>

lemma isupper_SECRET_KEY: "str_isupper ''SECRET_KEY''"
  by (simp add: str_isupper_def is_upper_char_def is_lower_char_def)

lemma load_defaults:
  "from_mapping PNone [(''SECRET_KEY'', PStr ''dev'')] c = Inr (c(''SECRET_KEY'' \<mapsto> PStr ''dev''))"
  by (simp add: from_mapping_def mapping_items_def isupper_SECRET_KEY)

lemma add_url_rule_frame:
  "add_url_rule r e f a = Inr a' \<Longrightarrow>
     user_graphs a' = user_graphs a \<and> config a' = config a \<and>
     after_request_funcs a' = after_request_funcs a \<and> blueprints a' = blueprints a \<and>
     url_map a' = url_map a @ [(r, e)] \<and> view_functions a' e = Some f \<and>
     view_functions a \<subseteq>\<^sub>m view_functions a'"
  by (auto simp: add_url_rule_def map_le_def split: option.splits if_splits)

lemma add_routes_frame:
  "add_routes n rs a = Inr a' \<Longrightarrow>
     user_graphs a' = user_graphs a \<and> config a' = config a \<and>
     after_request_funcs a' = after_request_funcs a \<and> blueprints a' = blueprints a \<and>
     url_map a' = url_map a @ map (\<lambda>r. (rt_rule r, bp_endpoint n (rt_endpoint r))) rs \<and>
     view_functions a \<subseteq>\<^sub>m view_functions a'"
proof (induction rs arbitrary: a)
  case Nil
  then show ?case by simp
next
  case (Cons r rs)
  from Cons.prems obtain a1 where
    h: "add_url_rule (rt_rule r) (bp_endpoint n (rt_endpoint r)) (rt_view r) a = Inr a1"
    and t: "add_routes n rs a1 = Inr a'"
    by (auto split: sum.splits)
  from add_url_rule_frame [OF h] Cons.IH [OF t] show ?case
    by (auto intro: map_le_trans)
qed

lemma add_routes_bound:
  "add_routes n rs a = Inr a' \<Longrightarrow> r \<in> set rs \<Longrightarrow>
     view_functions a' (bp_endpoint n (rt_endpoint r)) = Some (rt_view r)"
proof (induction rs arbitrary: a)
  case Nil
  then show ?case by simp
next
  case (Cons x rs)
  from Cons.prems(1) obtain a1 where
    h: "add_url_rule (rt_rule x) (bp_endpoint n (rt_endpoint x)) (rt_view x) a = Inr a1"
    and t: "add_routes n rs a1 = Inr a'"
    by (auto split: sum.splits)
  show ?case
  proof (cases "r = x")
    case True
    from add_url_rule_frame [OF h]
    have "view_functions a1 (bp_endpoint n (rt_endpoint x)) = Some (rt_view x)" by simp
    moreover from add_routes_frame [OF t] have "view_functions a1 \<subseteq>\<^sub>m view_functions a'" by simp
    ultimately show ?thesis using True by (auto simp: map_le_def dom_def)
  next
    case False
    with Cons.prems(2) have "r \<in> set rs" by simp
    from Cons.IH [OF t this] show ?thesis .
  qed
qed

lemma create_app_InrD:
  assumes "create_app d tc w = (Inr a, w')"
  shows "\<exists>c. (if truthy tc then from_mapping tc [] (configured d) else Inr (configured d)) = Inr c \<and>
           cors_accepts d c \<and>
           add_routes (bp_name (api_bp d)) (bp_routes (api_bp d))
             \<lparr>user_graphs = Some (next_addr w), config = c,
              after_request_funcs = [CorsAfterRequest],
              blueprints = [bp_name (api_bp d) \<mapsto> api_bp d],
              url_map = [(''/static/<path:filename>'', ''static'')],
              view_functions = [''static'' \<mapsto> SendStaticFile]\<rparr> = Inr a \<and>
           w' = w\<lparr>heap := (heap w)(next_addr w \<mapsto> []), next_addr := Suc (next_addr w),
                  calls := calls w @ [Instantiate, AttachStore,
                  FromMapping PNone [(''SECRET_KEY'', PStr ''dev'')]] @
                    (if truthy tc then [FromMapping tc []] else []) @
                    [InstallCors, RegisterBlueprint]\<rparr>"
  using assms
  by (auto simp: create_app_def and_then_def Flask_def set_user_graphs_def new_dict_def logged_def
      config_from_mapping_def load_defaults configured_def CORS_def register_blueprint_def
      split: sum.splits if_splits)

lemma create_app_success:
  assumes "create_app d tc w = (Inr a, w')"
  shows "(if truthy tc then from_mapping tc [] (configured d) else Inr (configured d)) =
           Inr (config a)"
    and "cors_accepts d (config a)"
    and "user_graphs a = Some (next_addr w)"
    and "after_request_funcs a = [CorsAfterRequest]"
    and "blueprints a = [bp_name (api_bp d) \<mapsto> api_bp d]"
    and "url_map a = (''/static/<path:filename>'', ''static'') #
           map (\<lambda>r. (rt_rule r, bp_endpoint (bp_name (api_bp d)) (rt_endpoint r)))
             (bp_routes (api_bp d))"
    and "\<And>r. r \<in> set (bp_routes (api_bp d)) \<Longrightarrow>
           view_functions a (bp_endpoint (bp_name (api_bp d)) (rt_endpoint r)) = Some (rt_view r)"
    and "w' = w\<lparr>heap := (heap w)(next_addr w \<mapsto> []), next_addr := Suc (next_addr w),
                calls := calls w @ [Instantiate, AttachStore,
                  FromMapping PNone [(''SECRET_KEY'', PStr ''dev'')]] @
                  (if truthy tc then [FromMapping tc []] else []) @
                  [InstallCors, RegisterBlueprint]\<rparr>"
proof -
  from create_app_InrD [OF assms] obtain c where
    c: "(if truthy tc then from_mapping tc [] (configured d) else Inr (configured d)) = Inr c"
    and acc: "cors_accepts d c"
    and reg: "add_routes (bp_name (api_bp d)) (bp_routes (api_bp d))
             \<lparr>user_graphs = Some (next_addr w), config = c,
              after_request_funcs = [CorsAfterRequest],
              blueprints = [bp_name (api_bp d) \<mapsto> api_bp d],
              url_map = [(''/static/<path:filename>'', ''static'')],
              view_functions = [''static'' \<mapsto> SendStaticFile]\<rparr> = Inr a"
    and w: "w' = w\<lparr>heap := (heap w)(next_addr w \<mapsto> []), next_addr := Suc (next_addr w),
                  calls := calls w @ [Instantiate, AttachStore,
                  FromMapping PNone [(''SECRET_KEY'', PStr ''dev'')]] @
                    (if truthy tc then [FromMapping tc []] else []) @
                    [InstallCors, RegisterBlueprint]\<rparr>"
    by blast
  note fr = add_routes_frame [OF reg]
  from fr have cfg: "config a = c" by simp
  show "(if truthy tc then from_mapping tc [] (configured d) else Inr (configured d)) =
           Inr (config a)" using c cfg by simp
  show "cors_accepts d (config a)" using acc cfg by simp
  show "user_graphs a = Some (next_addr w)" using fr by simp
  show "after_request_funcs a = [CorsAfterRequest]" using fr by simp
  show "blueprints a = [bp_name (api_bp d) \<mapsto> api_bp d]" using fr by simp
  show "url_map a = (''/static/<path:filename>'', ''static'') #
           map (\<lambda>r. (rt_rule r, bp_endpoint (bp_name (api_bp d)) (rt_endpoint r)))
             (bp_routes (api_bp d))" using fr by simp
  show "\<And>r. r \<in> set (bp_routes (api_bp d)) \<Longrightarrow>
           view_functions a (bp_endpoint (bp_name (api_bp d)) (rt_endpoint r)) = Some (rt_view r)"
    using add_routes_bound [OF reg] by simp
  show "w' = w\<lparr>heap := (heap w)(next_addr w \<mapsto> []), next_addr := Suc (next_addr w),
                calls := calls w @ [Instantiate, AttachStore,
                  FromMapping PNone [(''SECRET_KEY'', PStr ''dev'')]] @
                  (if truthy tc then [FromMapping tc []] else []) @
                  [InstallCors, RegisterBlueprint]\<rparr>" by (rule w)
qed

lemma set_upper_items_absent:
  "set_upper_items kvs c = Inr c' \<Longrightarrow> PStr s \<notin> fst ` set kvs \<Longrightarrow> c' s = c s"
proof (induction kvs arbitrary: c)
  case Nil
  then show ?case by simp
next
  case (Cons kv kvs)
  obtain k v where kv: "kv = (k, v)" by (cases kv)
  from Cons.prems(1) kv obtain t where k: "k = PStr t"
    and rest: "set_upper_items kvs (if str_isupper t then c(t \<mapsto> v) else c) = Inr c'"
    by (cases k) auto
  from Cons.prems(2) kv k have "t \<noteq> s" and "PStr s \<notin> fst ` set kvs" by auto
  with Cons.IH [OF rest] show ?case by simp
qed

lemma set_upper_items_present:
  "set_upper_items kvs c = Inr c' \<Longrightarrow> distinct (map fst kvs) \<Longrightarrow>
     (PStr s, v) \<in> set kvs \<Longrightarrow> str_isupper s \<Longrightarrow> c' s = Some v"
proof (induction kvs arbitrary: c)
  case Nil
  then show ?case by simp
next
  case (Cons kv kvs)
  obtain k u where kv: "kv = (k, u)" by (cases kv)
  from Cons.prems(1) kv obtain t where k: "k = PStr t"
    and rest: "set_upper_items kvs (if str_isupper t then c(t \<mapsto> u) else c) = Inr c'"
    by (cases k) auto
  show ?case
  proof (cases "(PStr s, v) \<in> set kvs")
    case True
    from Cons.prems(2) have "distinct (map fst kvs)" by simp
    from Cons.IH [OF rest this True Cons.prems(4)] show ?thesis .
  next
    case False
    with Cons.prems(3) kv k have eq: "t = s" "u = v" by auto
    from Cons.prems(2) kv k eq have "PStr s \<notin> fst ` set kvs" by (auto simp: image_iff)
    from set_upper_items_absent [OF rest this] eq Cons.prems(4) show ?thesis by simp
  qed
qed

subsection \<open>When \<open>create_app\<close> returns\<close>

lemma set_upper_items_str_keys:
  "str_keys kvs \<Longrightarrow> set_upper_items kvs c = Inr (fold put_upper kvs c)"
proof (induction kvs arbitrary: c)
  case Nil
  then show ?case by simp
next
  case (Cons kv kvs)
  obtain k v where kv: "kv = (k, v)" by (cases kv)
  from Cons.prems kv obtain s where k: "k = PStr s" and rest: "str_keys kvs"
    by (cases k) (auto simp: str_keys_def)
  from Cons.IH [OF rest] kv k show ?case by (simp add: put_upper_def)
qed

lemma merge_ok:
  assumes "mergeable tc"
  shows "(if truthy tc then from_mapping tc [] (configured d) else Inr (configured d)) =
           Inr (merged_config d tc)"
proof (cases tc)
  case (PDict kvs)
  with assms have "str_keys kvs" by (simp add: mergeable_def)
  from set_upper_items_str_keys [OF this] PDict show ?thesis
    by (cases kvs)
      (simp_all add: truthy_def from_mapping_def mapping_items_def merged_config_def
        overlay_items_def)
qed (use assms in \<open>simp_all add: mergeable_def merged_config_def overlay_items_def\<close>)

lemma bp_endpoint_inject: "bp_endpoint n e = bp_endpoint n e' \<Longrightarrow> e = e'"
  by (simp add: bp_endpoint_def)

lemma bp_endpoint_not_static: "bp_endpoint n e \<noteq> ''static''"
proof
  assume "bp_endpoint n e = ''static''"
  then have "set (bp_endpoint n e) = set ''static''" by simp
  moreover have "CHR ''.'' \<in> set (bp_endpoint n e)" by (simp add: bp_endpoint_def)
  ultimately show False by simp
qed

lemma add_routes_ok:
  assumes "consistent_routes rs"
    and "\<And>r g. r \<in> set rs \<Longrightarrow> view_functions a (bp_endpoint n (rt_endpoint r)) = Some g \<Longrightarrow>
           g = rt_view r"
  shows "\<exists>a'. add_routes n rs a = Inr a'"
  using assms
proof (induction rs arbitrary: a)
  case Nil
  then show ?case by simp
next
  case (Cons r rs)
  have "\<And>g. view_functions a (bp_endpoint n (rt_endpoint r)) = Some g \<Longrightarrow> g = rt_view r"
    using Cons.prems(2) [of r] by simp
  then obtain a1 where
    h: "add_url_rule (rt_rule r) (bp_endpoint n (rt_endpoint r)) (rt_view r) a = Inr a1"
    and vf: "\<And>e. view_functions a1 e =
             (if e = bp_endpoint n (rt_endpoint r) then Some (rt_view r) else view_functions a e)"
    by (cases "view_functions a (bp_endpoint n (rt_endpoint r))")
      (auto simp: add_url_rule_def)
  from Cons.prems(1) have cons: "consistent_routes rs"
    and same: "\<And>r'. r' \<in> set rs \<Longrightarrow> rt_endpoint r' = rt_endpoint r \<Longrightarrow> rt_view r' = rt_view r"
    by (auto simp: list_all_iff)
  have "\<exists>a'. add_routes n rs a1 = Inr a'"
  proof (rule Cons.IH [OF cons])
    fix r' g
    assume r': "r' \<in> set rs" and g: "view_functions a1 (bp_endpoint n (rt_endpoint r')) = Some g"
    show "g = rt_view r'"
    proof (cases "rt_endpoint r' = rt_endpoint r")
      case True
      with g vf have "g = rt_view r" by simp
      with same [OF r' True] show ?thesis by simp
    next
      case False
      then have "bp_endpoint n (rt_endpoint r') \<noteq> bp_endpoint n (rt_endpoint r)"
        using bp_endpoint_inject by blast
      with g vf have "view_functions a (bp_endpoint n (rt_endpoint r')) = Some g" by simp
      with Cons.prems(2) [of r' g] r' show ?thesis by simp
    qed
  qed
  with h show ?case by simp
qed

lemma returns_when_mergeable:
  assumes "mergeable tc"
    and "cors_accepts d (merged_config d tc)"
    and "consistent_routes (bp_routes (api_bp d))"
  shows "\<exists>a w'. create_app d tc w = (Inr a, w') \<and> config a = merged_config d tc"
proof -
  let ?a0 = "\<lparr>user_graphs = Some (next_addr w), config = merged_config d tc,
              after_request_funcs = [CorsAfterRequest],
              blueprints = [bp_name (api_bp d) \<mapsto> api_bp d],
              url_map = [(''/static/<path:filename>'', ''static'')],
              view_functions = [''static'' \<mapsto> SendStaticFile]\<rparr>"
  have "\<exists>a'. add_routes (bp_name (api_bp d)) (bp_routes (api_bp d)) ?a0 = Inr a'"
    by (rule add_routes_ok [OF assms(3)]) (simp add: bp_endpoint_not_static)
  then obtain a where reg: "add_routes (bp_name (api_bp d)) (bp_routes (api_bp d)) ?a0 = Inr a"
    by blast
  from add_routes_frame [OF reg] have cfg: "config a = merged_config d tc" by simp
  have "fst (create_app d tc w) = Inr a"
    using merge_ok [OF assms(1), of d] assms(2) reg
    by (auto simp: create_app_def and_then_def Flask_def set_user_graphs_def new_dict_def
        logged_def config_from_mapping_def load_defaults configured_def CORS_def
        register_blueprint_def split: if_splits)
  with cfg show ?thesis by (cases "create_app d tc w") auto
qed


lemma set_upper_items_not_str_keys:
  "\<not> str_keys kvs \<Longrightarrow> set_upper_items kvs c = Inl AttributeError"
proof (induction kvs arbitrary: c)
  case Nil
  then show ?case by (simp add: str_keys_def)
next
  case (Cons kv kvs)
  obtain k v where kv: "kv = (k, v)" by (cases kv)
  show ?case
  proof (cases k)
    case (PStr s)
    with Cons.prems kv have "\<not> str_keys kvs" by (simp add: str_keys_def)
    from Cons.IH [OF this] kv PStr show ?thesis by simp
  qed (simp_all add: kv)
qed

lemma merge_fails:
  assumes "\<not> mergeable tc"
  shows "truthy tc \<and> from_mapping tc [] c = Inl (merge_error tc)"
proof (cases tc)
  case (PDict kvs)
  with assms have "\<not> str_keys kvs" by (simp add: mergeable_def)
  moreover from this have "kvs \<noteq> []" by (auto simp: str_keys_def)
  ultimately show ?thesis using PDict
    by (simp add: truthy_def from_mapping_def mapping_items_def merge_error_def
        set_upper_items_not_str_keys)
qed (use assms in \<open>simp_all add: mergeable_def truthy_def from_mapping_def mapping_items_def
    merge_error_def\<close>)

lemma merge_InrD:
  assumes "(if truthy tc then from_mapping tc [] (configured d) else Inr (configured d)) = Inr c"
  shows "mergeable tc \<and> c = merged_config d tc"
proof -
  have m: "mergeable tc"
  proof (rule ccontr)
    assume "\<not> mergeable tc"
    from merge_fails [OF this, of "configured d"] assms show False by simp
  qed
  from merge_ok [OF m, of d] assms have "c = merged_config d tc" by simp
  with m show ?thesis by simp
qed






lemma and_then_InrD:
  assumes "and_then m f w = (Inr y, w')"
  obtains x w1 where "m w = (Inr x, w1)" and "f x w1 = (Inr y, w')"
proof (cases "m w")
  case (Pair r w1)
  with assms show ?thesis
    by (cases r) (auto simp: and_then_def intro: that)
qed

lemma example_consistent: "consistent_routes (bp_routes (api_bp example_deps))"
  by (simp add: example_deps_def example_bp_def)

lemma example_run:
  assumes "mergeable tc"
    and "cors_accepts example_deps (merged_config example_deps tc)"
  shows "\<exists>a w'. create_app example_deps tc w = (Inr a, w')"
  using returns_when_mergeable [OF assms example_consistent] by blast

lemma example_run_none: "\<exists>a w'. create_app example_deps PNone w = (Inr a, w')"
  by (rule example_run)
    (simp_all add: mergeable_def truthy_def merged_config_def overlay_items_def configured_def
      example_deps_def)

lemma example_run_prod: "\<exists>a w'. create_app example_deps prod_overlay w = (Inr a, w')"
  by (rule example_run)
    (simp_all add: prod_overlay_def mergeable_def str_keys_def merged_config_def
      overlay_items_def configured_def put_upper_def isupper_SECRET_KEY example_deps_def)

lemma example_run_debug: "\<exists>a w'. create_app example_deps debug_overlay w = (Inr a, w')"
  by (rule example_run)
    (simp_all add: debug_overlay_def mergeable_def str_keys_def merged_config_def
      overlay_items_def configured_def put_upper_def str_isupper_def is_upper_char_def
      is_lower_char_def example_deps_def)

subsection \<open>Configuration\<close>

text \<open>
  C1. Called with no overlay (\<open>test_config\<close> is \<open>None\<close>), \<open>create_app\<close> returns an
  application whose configuration has \<open>SECRET_KEY\<close> equal to \<open>'dev'\<close>.
\<close>

theorem create_app_default_secret_key:
  assumes "create_app d PNone w = (Inr a, w')"
  shows "config a ''SECRET_KEY'' = Some (PStr ''dev'')"
proof -
  from create_app_success(1) [OF assms] have "config a = configured d"
    by (simp add: truthy_def)
  then show ?thesis by (simp add: configured_def)
qed

text \<open>The run in the concrete setting returns, and its key is \<open>'dev'\<close>.\<close>

theorem create_app_default_secret_key_witness:
  "case create_app example_deps PNone fresh_world of
     (Inr a, w') \<Rightarrow> config a ''SECRET_KEY'' = Some (PStr ''dev'')
   | (Inl e, w') \<Rightarrow> False"
proof -
  from example_run_none obtain a w' where
    run: "create_app example_deps PNone fresh_world = (Inr a, w')" by blast
  from create_app_default_secret_key [OF run] show ?thesis by (simp add: run)
qed

text \<open>
  C2. For an overlay dictionary that has an item for \<open>SECRET_KEY\<close>, the application
  \<open>create_app\<close> returns has that item's value as its \<open>SECRET_KEY\<close>: the overlay's entry
  replaces the default \<open>'dev'\<close>.
\<close>

theorem create_app_overlay_secret_key:
  assumes "distinct (map fst kvs)"
    and "(PStr ''SECRET_KEY'', v) \<in> set kvs"
    and "create_app d (PDict kvs) w = (Inr a, w')"
  shows "config a ''SECRET_KEY'' = Some v"
proof -
  from assms(2) have "truthy (PDict kvs)" by (auto simp: truthy_def)
  with create_app_success(1) [OF assms(3)]
  have "set_upper_items kvs (configured d) = Inr (config a)"
    by (simp add: from_mapping_def mapping_items_def)
  from set_upper_items_present [OF this assms(1) assms(2) isupper_SECRET_KEY]
  show ?thesis .
qed

text \<open>The overlay \<open>{'SECRET_KEY': 'prod-secret'}\<close> in the concrete setting.\<close>

theorem create_app_overlay_secret_key_witness:
  "case create_app example_deps prod_overlay fresh_world of
     (Inr a, w') \<Rightarrow> config a ''SECRET_KEY'' = Some (PStr ''prod-secret'')
   | (Inl e, w') \<Rightarrow> False"
proof -
  from example_run_prod obtain a w' where
    run: "create_app example_deps (PDict [(PStr ''SECRET_KEY'', PStr ''prod-secret'')])
            fresh_world = (Inr a, w')"
    unfolding prod_overlay_def by blast
  have "config a ''SECRET_KEY'' = Some (PStr ''prod-secret'')"
    by (rule create_app_overlay_secret_key [OF _ _ run]) simp_all
  with run show ?thesis by (simp add: prod_overlay_def)
qed

text \<open>
  C3. For an overlay dictionary with no item for \<open>SECRET_KEY\<close>, the returned application
  still has \<open>SECRET_KEY\<close> equal to \<open>'dev'\<close>; more generally every entry of the loaded defaults
  whose key is not a key of the overlay is the same after the merge.
\<close>

theorem create_app_overlay_keeps_defaults:
  assumes "PStr ''SECRET_KEY'' \<notin> fst ` set kvs"
    and "create_app d (PDict kvs) w = (Inr a, w')"
  shows "config a ''SECRET_KEY'' = Some (PStr ''dev'') \<and>
         (\<forall>k. PStr k \<notin> fst ` set kvs \<longrightarrow> config a k = configured d k)"
proof -
  have keep: "config a k = configured d k" if "PStr k \<notin> fst ` set kvs" for k
  proof (cases "truthy (PDict kvs)")
    case True
    with create_app_success(1) [OF assms(2)]
    have "set_upper_items kvs (configured d) = Inr (config a)"
      by (simp add: from_mapping_def mapping_items_def)
    from set_upper_items_absent [OF this that] show ?thesis .
  next
    case False
    with create_app_success(1) [OF assms(2)] show ?thesis by simp
  qed
  from keep [OF assms(1)] have "config a ''SECRET_KEY'' = Some (PStr ''dev'')"
    by (simp add: configured_def)
  with keep show ?thesis by blast
qed

text \<open>
  The overlay \<open>{'DEBUG': True}\<close> in the concrete setting: the key stays \<open>'dev'\<close> and the
  framework's default for \<open>TESTING\<close> stays.
\<close>

theorem create_app_overlay_keeps_defaults_witness:
  "case create_app example_deps debug_overlay fresh_world of
     (Inr a, w') \<Rightarrow> config a ''SECRET_KEY'' = Some (PStr ''dev'') \<and>
        config a ''TESTING'' = Some (PBool False)
   | (Inl e, w') \<Rightarrow> False"
proof -
  from example_run_debug obtain a w' where
    run: "create_app example_deps (PDict [(PStr ''DEBUG'', PBool True)]) fresh_world =
            (Inr a, w')"
    unfolding debug_overlay_def by blast
  have "config a ''SECRET_KEY'' = Some (PStr ''dev'') \<and>
        (\<forall>k. PStr k \<notin> fst ` set [(PStr ''DEBUG'', PBool True)] \<longrightarrow>
           config a k = configured example_deps k)"
    by (rule create_app_overlay_keeps_defaults [OF _ run]) simp
  then have "config a ''SECRET_KEY'' = Some (PStr ''dev'')"
    and "config a ''TESTING'' = configured example_deps ''TESTING''"
    by simp_all
  with run show ?thesis by (simp add: debug_overlay_def configured_def example_deps_def)
qed

subsection \<open>The user-graph store\<close>

text \<open>
  C4. A returned application has its \<open>user_graphs\<close> attribute bound to a dictionary that is
  empty. Two calls, one after the other, bind different dictionaries: both are empty after
  the second call, and storing an item in the first one's leaves the second one's empty.
\<close>

theorem create_app_store_fresh:
  assumes "create_app d tc w = (Inr a, w1)"
    and "create_app d' tc' w1 = (Inr b, w2)"
  shows "\<exists>p q. user_graphs a = Some p \<and> user_graphs b = Some q \<and> p \<noteq> q \<and>
           heap w1 p = Some [] \<and> heap w2 q = Some [] \<and> heap w2 p = Some [] \<and>
           heap (setitem p k v w2) p = Some [(k, v)] \<and>
           heap (setitem p k v w2) q = Some []"
proof -
  note r1 = create_app_success [OF assms(1)] and r2 = create_app_success [OF assms(2)]
  have w1: "heap w1 = (heap w)(next_addr w \<mapsto> [])" "next_addr w1 = Suc (next_addr w)"
    using r1(8) by simp_all
  have w2: "heap w2 = (heap w1)(next_addr w1 \<mapsto> [])" using r2(8) by simp
  show ?thesis using r1(3) r2(3) w1 w2 by (simp add: setitem_def)
qed

text \<open>Two calls from the fresh state: the stores are at addresses 0 and 1.\<close>

theorem create_app_store_fresh_witness:
  "case create_app example_deps PNone fresh_world of
     (Inr a, w1) \<Rightarrow>
       (case create_app example_deps prod_overlay w1 of
          (Inr b, w2) \<Rightarrow>
            user_graphs a = Some 0 \<and> user_graphs b = Some 1 \<and>
            heap w2 0 = Some [] \<and> heap w2 1 = Some [] \<and>
            heap (setitem 0 (PStr ''alice'') (PDict []) w2) 0 = Some [(PStr ''alice'', PDict [])] \<and>
            heap (setitem 0 (PStr ''alice'') (PDict []) w2) 1 = Some []
        | (Inl e, w2) \<Rightarrow> False)
   | (Inl e, w1) \<Rightarrow> False"
proof -
  from example_run_none obtain a w1 where
    run1: "create_app example_deps PNone fresh_world = (Inr a, w1)" by blast
  from example_run_prod obtain b w2 where
    run2: "create_app example_deps prod_overlay w1 = (Inr b, w2)" by blast
  have a: "user_graphs a = Some 0"
    using create_app_success(3) [OF run1] by (simp add: fresh_world_def)
  have "next_addr w1 = 1"
    using create_app_success(8) [OF run1] by (simp add: fresh_world_def)
  then have b: "user_graphs b = Some 1"
    using create_app_success(3) [OF run2] by simp
  from create_app_store_fresh [OF run1 run2, of "PStr ''alice''" "PDict []"] a b
  show ?thesis by (simp add: run1 run2)
qed

subsection \<open>The order of the steps\<close>

text \<open>
  C5. A call that returns has gone through these states, in this order and with nothing
  else in between. \<open>Flask\<close> gives an application with the framework's configuration, no
  store, no hook and no blueprint. On that application the store is attached: a new empty
  dictionary. On the result the defaults are loaded: \<open>SECRET_KEY\<close> becomes \<open>'dev'\<close>. When
  \<open>test_config\<close> is truthy, and only then (so never when none was supplied), the overlay is
  merged over that configuration. On the result the cross-origin hook is installed, and on
  that application the blueprint is registered, which gives the application returned. Each
  call is logged as it is made.
\<close>

theorem create_app_step_order:
  assumes "create_app d tc w = (Inr a, w')"
  shows "\<exists>a1 w1 a2 w2 a3 w3 a4 w4 a5 w5.
     Flask d w = (Inr a1, w1) \<and>
     user_graphs a1 = None \<and> config a1 = default_config d \<and>
     after_request_funcs a1 = [] \<and> blueprints a1 = Map.empty \<and>
     calls w1 = calls w @ [Instantiate] \<and>
     set_user_graphs a1 w1 = (Inr a2, w2) \<and>
     a2 = a1\<lparr>user_graphs := Some (next_addr w)\<rparr> \<and>
     heap w2 (next_addr w) = Some [] \<and>
     calls w2 = calls w1 @ [AttachStore] \<and>
     config_from_mapping PNone [(''SECRET_KEY'', PStr ''dev'')] a2 w2 = (Inr a3, w3) \<and>
     a3 = a2\<lparr>config := (default_config d)(''SECRET_KEY'' \<mapsto> PStr ''dev'')\<rparr> \<and>
     calls w3 = calls w2 @ [FromMapping PNone [(''SECRET_KEY'', PStr ''dev'')]] \<and>
     (if truthy tc
      then config_from_mapping tc [] a3 w3 = (Inr a4, w4) \<and>
           a4 = a3\<lparr>config := merged_config d tc\<rparr> \<and>
           calls w4 = calls w3 @ [FromMapping tc []]
      else a4 = a3 \<and> w4 = w3) \<and>
     CORS d a4 w4 = (Inr a5, w5) \<and>
     a5 = a4\<lparr>after_request_funcs := [CorsAfterRequest]\<rparr> \<and>
     calls w5 = calls w4 @ [InstallCors] \<and>
     register_blueprint (api_bp d) a5 w5 = (Inr a, w') \<and>
     blueprints a = [bp_name (api_bp d) \<mapsto> api_bp d] \<and>
     user_graphs a = user_graphs a5 \<and> config a = config a5 \<and>
     after_request_funcs a = after_request_funcs a5 \<and>
     calls w' = calls w5 @ [RegisterBlueprint]"
proof -
  from assms obtain a1 w1 where s1: "Flask d w = (Inr a1, w1)"
    and r1: "and_then (set_user_graphs a1) (\<lambda>app.
      and_then (config_from_mapping PNone [(''SECRET_KEY'', PStr ''dev'')] app) (\<lambda>app.
      and_then (if truthy tc then config_from_mapping tc [] app else Pair (Inr app)) (\<lambda>app.
      and_then (CORS d app) (\<lambda>app.
      register_blueprint (api_bp d) app)))) w1 = (Inr a, w')"
    unfolding create_app_def by (rule and_then_InrD)
  from r1 obtain a2 w2 where s2: "set_user_graphs a1 w1 = (Inr a2, w2)"
    and r2: "and_then (config_from_mapping PNone [(''SECRET_KEY'', PStr ''dev'')] a2) (\<lambda>app.
      and_then (if truthy tc then config_from_mapping tc [] app else Pair (Inr app)) (\<lambda>app.
      and_then (CORS d app) (\<lambda>app.
      register_blueprint (api_bp d) app))) w2 = (Inr a, w')"
    by (rule and_then_InrD)
  from r2 obtain a3 w3 where
    s3: "config_from_mapping PNone [(''SECRET_KEY'', PStr ''dev'')] a2 w2 = (Inr a3, w3)"
    and r3: "and_then (if truthy tc then config_from_mapping tc [] a3 else Pair (Inr a3))
      (\<lambda>app. and_then (CORS d app) (\<lambda>app. register_blueprint (api_bp d) app)) w3 =
        (Inr a, w')"
    by (rule and_then_InrD)
  from r3 obtain a4 w4 where
    s4: "(if truthy tc then config_from_mapping tc [] a3 else Pair (Inr a3)) w3 = (Inr a4, w4)"
    and r4: "and_then (CORS d a4) (\<lambda>app. register_blueprint (api_bp d) app) w4 = (Inr a, w')"
    by (rule and_then_InrD)
  from r4 obtain a5 w5 where s5: "CORS d a4 w4 = (Inr a5, w5)"
    and s6: "register_blueprint (api_bp d) a5 w5 = (Inr a, w')"
    by (rule and_then_InrD)
  from s1 have p1: "user_graphs a1 = None" "config a1 = default_config d"
    "after_request_funcs a1 = []" "blueprints a1 = Map.empty"
    "calls w1 = calls w @ [Instantiate]" "next_addr w1 = next_addr w"
    by (auto simp: Flask_def logged_def)
  from s2 p1(6) have p2: "a2 = a1\<lparr>user_graphs := Some (next_addr w)\<rparr>"
    "heap w2 (next_addr w) = Some []" "calls w2 = calls w1 @ [AttachStore]"
    by (auto simp: set_user_graphs_def new_dict_def logged_def)
  from s3 p2(1) p1(2)
  have p3: "a3 = a2\<lparr>config := (default_config d)(''SECRET_KEY'' \<mapsto> PStr ''dev'')\<rparr>"
    "calls w3 = calls w2 @ [FromMapping PNone [(''SECRET_KEY'', PStr ''dev'')]]"
    by (auto simp: config_from_mapping_def load_defaults logged_def)
  then have c3: "config a3 = configured d" by (simp add: configured_def)
  have p4: "if truthy tc
      then config_from_mapping tc [] a3 w3 = (Inr a4, w4) \<and>
           a4 = a3\<lparr>config := merged_config d tc\<rparr> \<and>
           calls w4 = calls w3 @ [FromMapping tc []]
      else a4 = a3 \<and> w4 = w3"
  proof (cases "truthy tc")
    case True
    with s4 have run: "config_from_mapping tc [] a3 w3 = (Inr a4, w4)" by simp
    then obtain c where c: "from_mapping tc [] (configured d) = Inr c"
      and a4: "a4 = a3\<lparr>config := c\<rparr>" and w4: "w4 = logged (FromMapping tc []) w3"
      by (auto simp: config_from_mapping_def c3 split: sum.splits)
    from c True have "c = merged_config d tc" using merge_InrD [of tc d c] by simp
    with run a4 w4 True show ?thesis by (simp add: logged_def)
  next
    case False
    with s4 show ?thesis by simp
  qed
  from s5 have p5: "a5 = a4\<lparr>after_request_funcs := [CorsAfterRequest]\<rparr>"
    "calls w5 = calls w4 @ [InstallCors]"
  proof -
    have "after_request_funcs a4 = []"
      using p4 p3(1) p2(1) p1(3) by (auto split: if_splits)
    with s5 show "a5 = a4\<lparr>after_request_funcs := [CorsAfterRequest]\<rparr>"
      and "calls w5 = calls w4 @ [InstallCors]"
      by (auto simp: CORS_def logged_def split: if_splits)
  qed
  have b5: "blueprints a5 = Map.empty"
    using p5(1) p4 p3(1) p2(1) p1(4) by (auto split: if_splits)
  from s6 b5 obtain reg: "add_routes (bp_name (api_bp d)) (bp_routes (api_bp d))
        (a5\<lparr>blueprints := [bp_name (api_bp d) \<mapsto> api_bp d]\<rparr>) = Inr a"
    and w': "calls w' = calls w5 @ [RegisterBlueprint]"
    by (auto simp: register_blueprint_def logged_def)
  from add_routes_frame [OF reg]
  have p6: "blueprints a = [bp_name (api_bp d) \<mapsto> api_bp d]" "user_graphs a = user_graphs a5"
    "config a = config a5" "after_request_funcs a = after_request_funcs a5"
    by simp_all
  from s1 p1(1-5) s2 p2 s3 p3 p4 s5 p5 s6 p6 w' show ?thesis by blast
qed

text \<open>
  Without an overlay the log has five calls; with \<open>{'SECRET_KEY': 'prod-secret'}\<close> it has six,
  the merge of that overlay coming after the load of the defaults.
\<close>

theorem create_app_step_order_witness:
  "(case create_app example_deps PNone fresh_world of
      (Inr a, w') \<Rightarrow>
        calls w' = [Instantiate, AttachStore, FromMapping PNone [(''SECRET_KEY'', PStr ''dev'')],
                    InstallCors, RegisterBlueprint]
    | (Inl e, w') \<Rightarrow> False) \<and>
   (case create_app example_deps prod_overlay fresh_world of
      (Inr a, w') \<Rightarrow>
        calls w' = [Instantiate, AttachStore, FromMapping PNone [(''SECRET_KEY'', PStr ''dev'')],
                    FromMapping prod_overlay [], InstallCors, RegisterBlueprint]
    | (Inl e, w') \<Rightarrow> False)"
proof -
  from example_run_none obtain a w1 where
    run1: "create_app example_deps PNone fresh_world = (Inr a, w1)" by blast
  from example_run_prod obtain b w2 where
    run2: "create_app example_deps prod_overlay fresh_world = (Inr b, w2)" by blast
  have t: "truthy prod_overlay" "\<not> truthy PNone"
    by (simp_all add: truthy_def prod_overlay_def)
  have "calls fresh_world = []" by (simp add: fresh_world_def)
  with create_app_step_order [OF run1] t(2)
  have "calls w1 = [Instantiate, AttachStore, FromMapping PNone [(''SECRET_KEY'', PStr ''dev'')],
                    InstallCors, RegisterBlueprint]"
    by auto
  moreover from create_app_step_order [OF run2] t(1) \<open>calls fresh_world = []\<close>
  have "calls w2 = [Instantiate, AttachStore, FromMapping PNone [(''SECRET_KEY'', PStr ''dev'')],
                    FromMapping prod_overlay [], InstallCors, RegisterBlueprint]"
    by auto
  ultimately show ?thesis by (simp add: run1 run2)
qed

subsection \<open>Exceptions\<close>




subsection \<open>The routes\<close>

text \<open>
  C7. On a returned application the blueprint \<open>api_bp\<close> is registered under its name, and
  each of its routes is in the URL map with its endpoint bound to the route's view function.
\<close>

theorem create_app_registers_blueprint:
  assumes "create_app d tc w = (Inr a, w')"
  shows "blueprints a (bp_name (api_bp d)) = Some (api_bp d) \<and>
         (\<forall>r \<in> set (bp_routes (api_bp d)).
            (rt_rule r, bp_endpoint (bp_name (api_bp d)) (rt_endpoint r)) \<in> set (url_map a) \<and>
            view_functions a (bp_endpoint (bp_name (api_bp d)) (rt_endpoint r)) =
              Some (rt_view r))"
  using create_app_success(5-7) [OF assms] by auto

text \<open>The two routes of the example blueprint, after a call with no overlay.\<close>

theorem create_app_registers_blueprint_witness:
  "case create_app example_deps PNone fresh_world of
     (Inr a, w') \<Rightarrow>
       blueprints a ''api'' = Some example_bp \<and>
       (''/graph'', ''api.get_graph'') \<in> set (url_map a) \<and>
       view_functions a ''api.get_graph'' = Some (Handler 0) \<and>
       (''/graph/upload'', ''api.upload_graph'') \<in> set (url_map a) \<and>
       view_functions a ''api.upload_graph'' = Some (Handler 1)
   | (Inl e, w') \<Rightarrow> False"
proof -
  from example_run_none obtain a w' where
    run: "create_app example_deps PNone fresh_world = (Inr a, w')" by blast
  from create_app_registers_blueprint [OF run]
  have "blueprints a ''api'' = Some example_bp \<and>
       (''/graph'', ''api.get_graph'') \<in> set (url_map a) \<and>
       view_functions a ''api.get_graph'' = Some (Handler 0) \<and>
       (''/graph/upload'', ''api.upload_graph'') \<in> set (url_map a) \<and>
       view_functions a ''api.upload_graph'' = Some (Handler 1)"
    by (simp add: example_deps_def example_bp_def bp_endpoint_def)
  with run show ?thesis by simp
qed

subsection \<open>Falsy overlays\<close>

text \<open>
  C8. A call with the empty dictionary as overlay gives the same result and the same final
  state as a call with no overlay, and so does a call with any other falsy overlay: the merge
  step is skipped for each.
\<close>

theorem create_app_falsy_overlay:
  "create_app d (PDict []) w = create_app d PNone w \<and>
   (\<not> truthy tc \<longrightarrow> create_app d tc w = create_app d PNone w)"
  by (simp add: create_app_def truthy_def)

text \<open>The empty dictionary, the empty string and zero.\<close>

theorem create_app_falsy_overlay_witness:
  "create_app example_deps (PDict []) fresh_world = create_app example_deps PNone fresh_world \<and>
   create_app example_deps (PStr []) fresh_world = create_app example_deps PNone fresh_world \<and>
   create_app example_deps (PInt 0) fresh_world = create_app example_deps PNone fresh_world"
  using create_app_falsy_overlay [of example_deps fresh_world "PStr []"]
    create_app_falsy_overlay [of example_deps fresh_world "PInt 0"]
  by (simp add: truthy_def)

subsection \<open>What the later steps leave alone\<close>

lemma create_app_heap:
  "heap (snd (create_app d tc w)) = (heap w)(next_addr w \<mapsto> [])"
  by (simp add: create_app_def and_then_def Flask_def set_user_graphs_def new_dict_def logged_def
      config_from_mapping_def load_defaults CORS_def register_blueprint_def
      split: sum.splits option.splits)

text \<open>
  C9. For every overlay, the heap at the end of \<open>create_app\<close> is the heap as it was right
  after the store was attached, where the store is the empty dictionary; and a returned
  application has its \<open>user_graphs\<close> attribute bound to that same dictionary, still empty.
\<close>

theorem create_app_store_unchanged:
  "\<exists>a1 w1. and_then (Flask d) set_user_graphs w = (Inr a1, w1) \<and>
     user_graphs a1 = Some (next_addr w) \<and>
     heap w1 (next_addr w) = Some [] \<and>
     heap (snd (create_app d tc w)) = heap w1 \<and>
     (case fst (create_app d tc w) of
        Inr a \<Rightarrow> user_graphs a = user_graphs a1 \<and> heap (snd (create_app d tc w)) (next_addr w) = Some []
      | Inl e \<Rightarrow> True)"
proof -
  have "case fst (create_app d tc w) of
          Inr a \<Rightarrow> user_graphs a = Some (next_addr w) | Inl e \<Rightarrow> True"
  proof (cases "create_app d tc w")
    case (Pair r w')
    then show ?thesis
      by (cases r) (simp_all add: create_app_success(3))
  qed
  then show ?thesis
    by (simp add: create_app_heap and_then_def Flask_def set_user_graphs_def new_dict_def
        logged_def split: sum.splits)
qed

text \<open>A call with an overlay from the fresh state: the store is at address 0 and empty.\<close>

theorem create_app_store_unchanged_witness:
  "case create_app example_deps prod_overlay fresh_world of
     (Inr a, w') \<Rightarrow> user_graphs a = Some 0 \<and> heap w' 0 = Some []
   | (Inl e, w') \<Rightarrow> False"
proof -
  from example_run_prod obtain a w' where
    run: "create_app example_deps prod_overlay fresh_world = (Inr a, w')" by blast
  from create_app_store_unchanged [of example_deps fresh_world prod_overlay]
  have "user_graphs a = Some (next_addr fresh_world) \<and>
        heap w' (next_addr fresh_world) = Some []"
    by (auto simp: run)
  then have "user_graphs a = Some 0 \<and> heap w' 0 = Some []"
    by (simp add: fresh_world_def)
  with run show ?thesis by simp
qed

end
